theory Spec2Isabelle
  imports Complex_Main
begin

section \<open>The IBKRService bridge of docs/event-loop-integration.md\<close>

text \<open>
  The service of \<^verbatim>\<open>backend/services/ibkr_service.py\<close>, as listed in the integration
  guide: one dedicated thread owns the \<^verbatim>\<open>ib_insync\<close> connection, request handlers hand
  it closures through a \<^verbatim>\<open>queue.Queue\<close> and read the outcome from a
  \<^verbatim>\<open>concurrent.futures.Future\<close>.

  Threads are modelled by atomic steps: the handshake of a worker, one iteration of its
  \<^verbatim>\<open>while\<close> loop, the two halves of \<^verbatim>\<open>execute\<close> (before and after its
  \<^verbatim>\<open>await\<close>) and \<^verbatim>\<open>start\<close>. A run of the program is a sequence of such steps.
  Durations are real numbers of seconds, as the literals of the source are.
\<close>

subsection \<open>Python values: exceptions, futures, the queue, the event\<close>

text \<open>
  What a Python call can raise. \<^verbatim>\<open>QueueEmpty\<close> is \<^verbatim>\<open>queue.Empty\<close> and \<^verbatim>\<open>Error\<close>
  stands for any other instance of \<^verbatim>\<open>Exception\<close>. The last three derive from
  \<^verbatim>\<open>BaseException\<close> only (\<^verbatim>\<open>asyncio.CancelledError\<close> since Python 3.8): an
  \<^verbatim>\<open>except Exception\<close> clause does not catch them.
\<close>

datatype exn = QueueEmpty | InvalidStateError | TimeoutError | Error string
  | CancelledError | SystemExit | KeyboardInterrupt

text \<open>\<^verbatim>\<open>isinstance(e, Exception)\<close>.\<close>

fun is_Exception :: "exn \<Rightarrow> bool" where
  "is_Exception CancelledError = False"
| "is_Exception SystemExit = False"
| "is_Exception KeyboardInterrupt = False"
| "is_Exception _ = True"

text \<open>
  A \<^verbatim>\<open>concurrent.futures.Future\<close>. The service never cancels one, so a future is pending
  or finished, with the exception or the result it was given.
\<close>

datatype 'v future = Pending | Finished "exn + 'v"

text \<open>\<^verbatim>\<open>Future.set_result\<close> and \<^verbatim>\<open>Future.set_exception\<close> raise on a finished future.\<close>

definition set_result :: "'v future \<Rightarrow> 'v \<Rightarrow> exn + 'v future" where
  "set_result f v = (case f of Pending \<Rightarrow> Inr (Finished (Inr v)) | Finished _ \<Rightarrow> Inl InvalidStateError)"

definition set_exception :: "'v future \<Rightarrow> exn \<Rightarrow> exn + 'v future" where
  "set_exception f e = (case f of Pending \<Rightarrow> Inr (Finished (Inl e)) | Finished _ \<Rightarrow> Inl InvalidStateError)"

text \<open>
  \<^verbatim>\<open>Future.result(timeout)\<close>: the caller waits until the future is finished, for at most
  \<^verbatim>\<open>timeout\<close> seconds. \<open>f\<close> is the future as the caller finds it when its wait ends and
  \<open>done_after\<close> the time, counted from the call, at which the worker finishes it
  (\<open>None\<close>: never). A future found pending, or finished too late, is a timeout.
\<close>

definition future_result :: "'v future \<Rightarrow> real option \<Rightarrow> real \<Rightarrow> exn + 'v" where
  "future_result f done_after timeout =
     (case f of
        Pending \<Rightarrow> Inl TimeoutError
      | Finished r \<Rightarrow>
          (case done_after of
             None \<Rightarrow> Inl TimeoutError
           | Some t \<Rightarrow> if t \<le> timeout then r else Inl TimeoutError))"

text \<open>
  \<^verbatim>\<open>threading.Event.wait(timeout)\<close>: true when the flag is set within the timeout.
  \<open>set_after\<close> is the time after which \<^verbatim>\<open>set()\<close> is called (\<open>None\<close>: never).
\<close>

definition event_wait :: "real option \<Rightarrow> real \<Rightarrow> bool" where
  "event_wait set_after timeout = (case set_after of None \<Rightarrow> False | Some t \<Rightarrow> t \<le> timeout)"

text \<open>
  \<^verbatim>\<open>queue.Queue\<close>, unbounded: \<^verbatim>\<open>put\<close> appends, \<^verbatim>\<open>get(timeout=...)\<close> takes the oldest
  item or raises \<^verbatim>\<open>queue.Empty\<close> when \<^verbatim>\<open>timeout\<close> seconds pass with the queue empty.
  The queue is read at the moment the call returns.
\<close>

definition queue_put :: "'a list \<Rightarrow> 'a \<Rightarrow> 'a list" where
  "queue_put q x = q @ [x]"

definition queue_get :: "'a list \<Rightarrow> real \<Rightarrow> exn + ('a \<times> 'a list)" where
  "queue_get q timeout = (case q of [] \<Rightarrow> Inl QueueEmpty | x # rest \<Rightarrow> Inr (x, rest))"

subsection \<open>The service object and its threads\<close>

text \<open>
  The \<^verbatim>\<open>ib_insync\<close> library is not part of the repository: the two calls the service makes
  are parameters. Each acts on the connection object \<open>'c\<close> and returns or raises.
\<close>

record 'c ib_insync =
  ib_connect :: "string \<Rightarrow> int \<Rightarrow> int \<Rightarrow> 'c \<Rightarrow> (exn + unit) \<times> 'c"
  ib_sleep :: "real \<Rightarrow> 'c \<Rightarrow> (exn + unit) \<times> 'c"

text \<open>
  A queued tuple \<^verbatim>\<open>(func, args, kwargs, future)\<close>: the call \<^verbatim>\<open>func(*args, **kwargs)\<close> as
  a function of the connection it runs against, and the reference of its future. The
  call returns a value or raises, and leaves a connection; \<open>None\<close> is a call that never
  returns.
\<close>

type_synonym ('c, 'v) call = "'c \<Rightarrow> ((exn + 'v) \<times> 'c) option"

type_synonym ('c, 'v) work_item = "('c, 'v) call \<times> nat"

text \<open>
  A thread running \<^verbatim>\<open>_worker\<close>: where it is in the function, and the variables of the
  \<^verbatim>\<open>start\<close> call that made it. \<open>connect_done\<close> counts the calls of
  \<^verbatim>\<open>connect_done.set()\<close>; the event's flag is set when the count is positive.
  \<open>Stuck\<close> is a thread inside a call that never returns, \<open>Dead e\<close> one that ended by
  the uncaught exception \<open>e\<close>, \<open>Exited\<close> one whose loop ended.
\<close>

datatype wstatus = Connecting | Looping | Stuck | Exited | Dead exn

record worker =
  w_status :: wstatus
  w_host :: string
  w_port :: int
  w_client_id :: int
  connect_done :: nat
  connect_error :: "exn list"

text \<open>
  The fields of \<^verbatim>\<open>IBKRService\<close>, the futures made so far (a store indexed by reference)
  and the threads started so far. \<open>self_thread\<close> is the index of the thread that
  \<^verbatim>\<open>self._thread\<close> refers to.
\<close>

record ('c, 'v) ibkr_service =
  self_ib :: 'c
  self_thread :: "nat option"
  self_connected :: bool
  self_running :: bool
  self_task_queue :: "('c, 'v) work_item list"
  futures :: "nat \<Rightarrow> 'v future"
  next_future :: nat
  threads :: "worker list"

text \<open>\<^verbatim>\<open>__init__\<close>, given the fresh \<^verbatim>\<open>IB()\<close> object.\<close>

definition init :: "'c \<Rightarrow> ('c, 'v) ibkr_service" where
  "init c = \<lparr>self_ib = c, self_thread = None, self_connected = False, self_running = False,
     self_task_queue = [], futures = (\<lambda>_. Pending), next_future = 0, threads = []\<rparr>"

definition set_status :: "nat \<Rightarrow> wstatus \<Rightarrow> ('c, 'v) ibkr_service \<Rightarrow> ('c, 'v) ibkr_service" where
  "set_status tid st s = s\<lparr>threads := (threads s)[tid := (threads s ! tid)\<lparr>w_status := st\<rparr>]\<rparr>"

definition is_status :: "nat \<Rightarrow> wstatus \<Rightarrow> ('c, 'v) ibkr_service \<Rightarrow> bool" where
  "is_status tid st s = (tid < length (threads s) \<and> w_status (threads s ! tid) = st)"

subsection \<open>The worker\<close>

text \<open>
  The handshake at the head of \<^verbatim>\<open>_worker\<close>:
  \<^verbatim>\<open>
    try:
        self.ib.connect(host, port, clientId=client_id)
        self._connected = True
    except Exception as e:
        connect_error.append(e)
    finally:
        connect_done.set()
  \<close>
  after which the thread enters its loop. An exception that is not an instance of
  \<^verbatim>\<open>Exception\<close> passes the \<^verbatim>\<open>except\<close> clause: the \<^verbatim>\<open>finally\<close> clause still sets
  the event, and the exception ends the thread.
\<close>

definition worker_handshake ::
  "'c ib_insync \<Rightarrow> nat \<Rightarrow> ('c, 'v) ibkr_service \<Rightarrow> ('c, 'v) ibkr_service" where
  "worker_handshake env tid s =
     (if \<not> is_status tid Connecting s then s
      else
        let w = threads s ! tid in
        (case ib_connect env (w_host w) (w_port w) (w_client_id w) (self_ib s) of
           (Inr _, c) \<Rightarrow>
             s\<lparr>self_ib := c, self_connected := True,
               threads := (threads s)[tid := w\<lparr>connect_done := Suc (connect_done w),
                                               w_status := Looping\<rparr>]\<rparr>
         | (Inl e, c) \<Rightarrow>
             if is_Exception e then
               s\<lparr>self_ib := c,
                 threads := (threads s)[tid := w\<lparr>connect_error := connect_error w @ [e],
                                                 connect_done := Suc (connect_done w),
                                                 w_status := Looping\<rparr>]\<rparr>
             else
               s\<lparr>self_ib := c,
                 threads := (threads s)[tid := w\<lparr>connect_done := Suc (connect_done w),
                                                 w_status := Dead e\<rparr>]\<rparr>))"

text \<open>
  The inner \<^verbatim>\<open>try\<close> of the loop, for a dequeued item:
  \<^verbatim>\<open>
    try:
        result = func(*args, **kwargs)
        future.set_result(result)
    except Exception as e:
        future.set_exception(e)
  \<close>
  The result is \<open>None\<close> when the call never returns. Otherwise its first component is
  the exception that leaves the statement, if any: one that is not an instance of
  \<^verbatim>\<open>Exception\<close>, or one raised by \<^verbatim>\<open>set_exception\<close> inside the handler.
\<close>

definition run_item ::
  "('c, 'v) work_item \<Rightarrow> ('c, 'v) ibkr_service
     \<Rightarrow> (exn option \<times> ('c, 'v) ibkr_service) option" where
  "run_item item s =
     (case fst item (self_ib s) of
        None \<Rightarrow> None
      | Some (r, c) \<Rightarrow>
          let s1 = s\<lparr>self_ib := c\<rparr>;
              fid = snd item;
              handler = (\<lambda>e. case set_exception (futures s1 fid) e of
                                Inr f \<Rightarrow> (None, s1\<lparr>futures := (futures s1)(fid := f)\<rparr>)
                              | Inl e' \<Rightarrow> (Some e', s1));
              except_Exception = (\<lambda>e. if is_Exception e then handler e else (Some e, s1))
          in Some (case r of
                     Inr result \<Rightarrow>
                       (case set_result (futures s1 fid) result of
                          Inr f \<Rightarrow> (None, s1\<lparr>futures := (futures s1)(fid := f)\<rparr>)
                        | Inl e \<Rightarrow> except_Exception e)
                   | Inl e \<Rightarrow> except_Exception e))"

text \<open>
  What one pass of the worker does, for the trace of a run: an item run to the end of the
  inner \<^verbatim>\<open>try\<close>, an item whose exception left it, an item whose call never returns,
  a pump, a pass with nothing to do, the end of the loop, a pump that raised, and a
  thread that is not in its loop.
\<close>

datatype label = Executed nat | Escaped nat exn | Blocked nat | Pumped real | Idle | LoopExit
  | Died exn | NotLooping

text \<open>
  One test of \<^verbatim>\<open>while self._running\<close> and one pass through the body:
  \<^verbatim>\<open>
    while self._running:
        try:
            func, args, kwargs, future = self._task_queue.get(timeout=0.1)
            (the inner try)
        except queue.Empty:
            if self._connected:
                self.ib.sleep(0.01)
  \<close>
  An exception that is not \<^verbatim>\<open>queue.Empty\<close>, or that is raised inside the
  \<^verbatim>\<open>except queue.Empty\<close> handler, leaves the loop and ends the thread.
\<close>

definition worker_iter ::
  "'c ib_insync \<Rightarrow> nat \<Rightarrow> ('c, 'v) ibkr_service \<Rightarrow> label \<times> ('c, 'v) ibkr_service" where
  "worker_iter env tid s =
     (if \<not> is_status tid Looping s then (NotLooping, s)
      else if \<not> self_running s then (LoopExit, set_status tid Exited s)
      else
        (case queue_get (self_task_queue s) 0.1 of
           Inr (item, rest) \<Rightarrow>
             (case run_item item (s\<lparr>self_task_queue := rest\<rparr>) of
                None \<Rightarrow> (Blocked (snd item), set_status tid Stuck (s\<lparr>self_task_queue := rest\<rparr>))
              | Some (None, s') \<Rightarrow> (Executed (snd item), s')
              | Some (Some e, s') \<Rightarrow> (Escaped (snd item) e, set_status tid (Dead e) s'))
         | Inl _ \<Rightarrow>
             if self_connected s then
               (case ib_sleep env 0.01 (self_ib s) of
                  (Inr _, c) \<Rightarrow> (Pumped 0.01, s\<lparr>self_ib := c\<rparr>)
                | (Inl e, c) \<Rightarrow> (Died e, set_status tid (Dead e) (s\<lparr>self_ib := c\<rparr>)))
             else (Idle, s)))"

text \<open>\<open>n\<close> passes of the loop of one worker, with their trace.\<close>

fun worker_run ::
  "'c ib_insync \<Rightarrow> nat \<Rightarrow> nat \<Rightarrow> ('c, 'v) ibkr_service \<Rightarrow> label list \<times> ('c, 'v) ibkr_service" where
  "worker_run env tid 0 s = ([], s)"
| "worker_run env tid (Suc n) s =
     (case worker_iter env tid s of (l, s1) \<Rightarrow>
        (case worker_run env tid n s1 of (ls, s2) \<Rightarrow> (l # ls, s2)))"

subsection \<open>start and execute\<close>

definition new_worker :: "string \<Rightarrow> int \<Rightarrow> int \<Rightarrow> worker" where
  "new_worker host port client_id =
     \<lparr>w_status = Connecting, w_host = host, w_port = port, w_client_id = client_id,
      connect_done = 0, connect_error = []\<rparr>"

text \<open>
  \<^verbatim>\<open>start\<close>:
  \<^verbatim>\<open>
    self._running = True
    connect_done = threading.Event()
    connect_error: list = []
    def _worker(): ...
    self._thread = threading.Thread(target=_worker, daemon=True, name="ibkr-worker")
    self._thread.start()
    connect_done.wait(timeout=30)
  \<close>
  \<open>connect_latency\<close> is the time the new thread's \<^verbatim>\<open>ib.connect\<close> takes to return or
  raise (\<open>None\<close>: it has not done so yet). When the wait ends by the event, the
  handshake has run; when it ends by the timeout, the thread is still in it. The function
  has no \<^verbatim>\<open>return\<close> and no \<^verbatim>\<open>raise\<close>: its value is \<^verbatim>\<open>None\<close>, \<open>Inr ()\<close>.
\<close>

definition start ::
  "'c ib_insync \<Rightarrow> string \<Rightarrow> int \<Rightarrow> int \<Rightarrow> real option \<Rightarrow> ('c, 'v) ibkr_service
     \<Rightarrow> (exn + unit) \<times> ('c, 'v) ibkr_service" where
  "start env host port client_id connect_latency s =
     (let s1 = s\<lparr>self_running := True\<rparr>;
          tid = length (threads s1);
          s2 = s1\<lparr>self_thread := Some tid,
                  threads := threads s1 @ [new_worker host port client_id]\<rparr>;
          signalled = event_wait connect_latency 30;
          s3 = (if signalled then worker_handshake env tid s2 else s2)
      in (Inr (), s3))"

text \<open>
  \<^verbatim>\<open>execute\<close>, up to its \<^verbatim>\<open>await\<close>:
  \<^verbatim>\<open>
    future = Future()
    self._task_queue.put((func, args, kwargs, future))
  \<close>
  The result is the reference of the new future.
\<close>

definition execute_put ::
  "('c, 'v) call \<Rightarrow> ('c, 'v) ibkr_service \<Rightarrow> nat \<times> ('c, 'v) ibkr_service" where
  "execute_put func s =
     (let fid = next_future s in
      (fid, s\<lparr>futures := (futures s)(fid := Pending), next_future := Suc fid,
              self_task_queue := queue_put (self_task_queue s) (func, fid)\<rparr>))"

text \<open>
  \<^verbatim>\<open>execute\<close>, from its \<^verbatim>\<open>await\<close>:
  \<^verbatim>\<open>
    loop = asyncio.get_running_loop()
    return await loop.run_in_executor(None, future.result, 30)
  \<close>
  The call \<^verbatim>\<open>future.result(30)\<close> runs on a thread of the default executor: it starts
  \<open>executor_delay\<close> seconds after \<^verbatim>\<open>execute\<close> was called, when such a thread is free,
  and its 30 seconds count from there. \<open>done_after\<close> is the time, counted from the call
  of \<^verbatim>\<open>execute\<close>, at which the worker finishes the future, and \<open>s\<close> the service when
  the wait ends. The wait reads the future and writes nothing.
\<close>

definition execute_await ::
  "nat \<Rightarrow> real \<Rightarrow> real option \<Rightarrow> ('c, 'v) ibkr_service
     \<Rightarrow> (exn + 'v) \<times> ('c, 'v) ibkr_service" where
  "execute_await fid executor_delay done_after s =
     (future_result (futures s fid) (map_option (\<lambda>t. t - executor_delay) done_after) 30, s)"

subsection \<open>Runs that interleave callers and one worker\<close>



text \<open>The futures of the items a trace took from the queue, and of those it ran to the end.\<close>

fun dequeued :: "label list \<Rightarrow> nat list" where
  "dequeued [] = []"
| "dequeued (Executed fid # ls) = fid # dequeued ls"
| "dequeued (Escaped fid e # ls) = fid # dequeued ls"
| "dequeued (Blocked fid # ls) = fid # dequeued ls"
| "dequeued (_ # ls) = dequeued ls"



text \<open>
  The futures of the queued items are distinct, pending and were handed out by
  \<^verbatim>\<open>execute\<close>: what holds of a queue that only \<^verbatim>\<open>execute\<close> fills.
\<close>

definition queue_ok :: "('c, 'v) ibkr_service \<Rightarrow> bool" where
  "queue_ok s =
     (distinct (map snd (self_task_queue s)) \<and>
      (\<forall>item \<in> set (self_task_queue s).
         (case futures s (snd item) of Pending \<Rightarrow> True | Finished _ \<Rightarrow> False) \<and>
         snd item < next_future s))"

subsection \<open>Operations run one after another\<close>

text \<open>
  The outcome of a call that the inner \<^verbatim>\<open>try\<close> handles: a result, or an instance of
  \<^verbatim>\<open>Exception\<close>.
\<close>

definition handled :: "exn + 'v \<Rightarrow> bool" where
  "handled r = (case r of Inr _ \<Rightarrow> True | Inl e \<Rightarrow> is_Exception e)"

text \<open>
  The reference for FIFO execution, written from the specification and not from the
  worker: the calls of a list of items made one after another on the connection, each on
  the connection the one before left, with the outcome of each. It is \<open>None\<close> when a
  call does not return or raises past \<^verbatim>\<open>Exception\<close>, where the sequence stops.
\<close>

fun serial ::
  "('c, 'v) work_item list \<Rightarrow> 'c \<Rightarrow> ((nat \<times> (exn + 'v)) list \<times> 'c) option" where
  "serial [] c = Some ([], c)"
| "serial ((func, fid) # items) c =
     (case func c of
        None \<Rightarrow> None
      | Some (r, c1) \<Rightarrow>
          if handled r then
            (case serial items c1 of
               None \<Rightarrow> None
             | Some (rs, c2) \<Rightarrow> Some ((fid, r) # rs, c2))
          else None)"

subsection \<open>Example instances\<close>

text \<open>
  A connection that is a counter, a library whose calls succeed, and three operations:
  one that returns the counter and bumps it, one that raises an \<^verbatim>\<open>Exception\<close> and one
  that raises \<^verbatim>\<open>asyncio.CancelledError\<close>.
\<close>

definition env_ok :: "int ib_insync" where
  "env_ok = \<lparr>ib_connect = (\<lambda>host port client_id c. (Inr (), c)),
             ib_sleep = (\<lambda>d c. (Inr (), c))\<rparr>"

definition op_count :: "(int, int) call" where
  "op_count c = Some (Inr c, c + 1)"

definition op_boom :: "(int, int) call" where
  "op_boom c = Some (Inl (Error ''boom''), c)"

definition op_cancelled :: "(int, int) call" where
  "op_cancelled c = Some (Inl CancelledError, c)"

definition started :: "(int, int) ibkr_service" where
  "started = snd (start env_ok ''127.0.0.1'' 7497 1 (Some 1) (init 0))"

text \<open>
  Libraries whose \<^verbatim>\<open>connect\<close> or \<^verbatim>\<open>sleep\<close> raises, the states they lead to, the
  state after a pass on a cancelled operation, and a schedule of three submissions among
  two passes of the worker.
\<close>

definition env_refused :: "exn \<Rightarrow> int ib_insync" where
  "env_refused e = \<lparr>ib_connect = (\<lambda>host port client_id c. (Inl e, c)),
                     ib_sleep = (\<lambda>d c. (Inr (), c))\<rparr>"

definition env_pump_fails :: "int ib_insync" where
  "env_pump_fails = \<lparr>ib_connect = (\<lambda>host port client_id c. (Inr (), c)),
                     ib_sleep = (\<lambda>d c. (Inl (Error ''pump''), c))\<rparr>"

definition connecting :: "exn \<Rightarrow> (int, int) ibkr_service" where
  "connecting e = snd (start (env_refused e) ''127.0.0.1'' 7497 1 None (init 0))"

definition pump_failing :: "(int, int) ibkr_service" where
  "pump_failing = snd (start env_pump_fails ''127.0.0.1'' 7497 1 (Some 1) (init 0))"

definition refused :: "(int, int) ibkr_service" where
  "refused = snd (execute_put op_count
     (snd (start (env_refused (Error ''refused'')) ''127.0.0.1'' 7497 1 (Some 1) (init 0))))"

definition cancelled :: "(int, int) ibkr_service" where
  "cancelled = snd (worker_iter env_ok 0 (snd (execute_put op_cancelled started)))"


section \<open>Single steps\<close>

lemma run_item_handled:
  assumes "f (self_ib s) = Some (r, c)" and "handled r" and "futures s fid = Pending"
  shows "run_item (f, fid) s =
     Some (None, s\<lparr>self_ib := c, futures := (futures s)(fid := Finished r)\<rparr>)"
  using assms
  by (auto simp: run_item_def handled_def set_result_def set_exception_def Let_def
      split: sum.splits)

lemma worker_iter_item:
  assumes "is_status tid Looping s" and "self_running s"
    and "self_task_queue s = (f, fid) # rest" and "futures s fid = Pending"
    and "f (self_ib s) = Some (r, c)" and "handled r"
  shows "worker_iter env tid s =
           (Executed fid,
            s\<lparr>self_task_queue := rest, self_ib := c,
              futures := (futures s)(fid := Finished r)\<rparr>)"
proof -
  have "run_item (f, fid) (s\<lparr>self_task_queue := rest\<rparr>) =
      Some (None, s\<lparr>self_task_queue := rest, self_ib := c,
              futures := (futures s)(fid := Finished r)\<rparr>)"
    using run_item_handled [of f "s\<lparr>self_task_queue := rest\<rparr>" r c fid] assms(4-6) by simp
  then show ?thesis
    using assms(1-3) by (simp add: worker_iter_def queue_get_def)
qed

lemma queue_ok_iff:
  "queue_ok s =
     (distinct (map snd (self_task_queue s)) \<and>
      (\<forall>item \<in> set (self_task_queue s). futures s (snd item) = Pending \<and> snd item < next_future s))"
proof -
  have "(case f of Pending \<Rightarrow> True | Finished _ \<Rightarrow> False) = (f = Pending)" for f :: "'b future"
    by (cases f) simp_all
  then show ?thesis by (simp add: queue_ok_def)
qed

lemma queue_ok_head:
  "queue_ok s \<Longrightarrow> self_task_queue s = (f, fid) # rest \<Longrightarrow> futures s fid = Pending"
  by (auto simp: queue_ok_def split: future.splits)

lemma queue_ok_after_item:
  assumes "queue_ok s" and "self_task_queue s = (f, fid) # rest"
  shows "queue_ok (s\<lparr>self_task_queue := rest, self_ib := c,
                     futures := (futures s)(fid := Finished r)\<rparr>)"
  using assms by (auto simp: queue_ok_def split: future.splits)

lemma is_status_frame [simp]:
  "is_status tid st (s\<lparr>self_task_queue := q\<rparr>) = is_status tid st s"
  "is_status tid st (s\<lparr>self_ib := c\<rparr>) = is_status tid st s"
  "is_status tid st (s\<lparr>futures := fs\<rparr>) = is_status tid st s"
  "is_status tid st (s\<lparr>next_future := n\<rparr>) = is_status tid st s"
  "is_status tid st (s\<lparr>self_connected := b\<rparr>) = is_status tid st s"
  "is_status tid st (s\<lparr>self_running := b\<rparr>) = is_status tid st s"
  "is_status tid st (s\<lparr>self_thread := t\<rparr>) = is_status tid st s"
  by (simp_all add: is_status_def)

lemma queue_ok_execute_put:
  assumes "queue_ok s"
  shows "queue_ok (snd (execute_put func s))"
proof -
  have lt: "\<forall>item \<in> set (self_task_queue s). snd item < next_future s"
    using assms by (simp add: queue_ok_def)
  then have "next_future s \<notin> snd ` set (self_task_queue s)" by auto
  then show ?thesis
    using assms lt
    by (auto simp: queue_ok_def execute_put_def queue_put_def Let_def less_Suc_eq
        split: future.splits)
qed

lemma execute_put_fields [simp]:
  "fst (execute_put func s) = next_future s"
  "self_task_queue (snd (execute_put func s)) = self_task_queue s @ [(func, next_future s)]"
  "next_future (snd (execute_put func s)) = Suc (next_future s)"
  "futures (snd (execute_put func s)) = (futures s)(next_future s := Pending)"
  "self_ib (snd (execute_put func s)) = self_ib s"
  "threads (snd (execute_put func s)) = threads s"
  "self_running (snd (execute_put func s)) = self_running s"
  "self_connected (snd (execute_put func s)) = self_connected s"
  "self_thread (snd (execute_put func s)) = self_thread s"
  "is_status tid st (snd (execute_put func s)) = is_status tid st s"
  by (simp_all add: execute_put_def queue_put_def Let_def is_status_def)

lemma snd_execute_await [simp]: "snd (execute_await fid executor_delay done_after s) = s"
  by (simp add: execute_await_def)

text \<open>
  What the inner \<^verbatim>\<open>try\<close> can change: the connection, and the future of its item, which
  it finishes when no exception leaves it.
\<close>

lemma run_item_frame:
  assumes "run_item (f, fid) s = Some (x, s')"
  shows "self_task_queue s' = self_task_queue s \<and> next_future s' = next_future s \<and>
     threads s' = threads s \<and> self_running s' = self_running s \<and>
     self_connected s' = self_connected s \<and> self_thread s' = self_thread s \<and>
     (\<forall>k. k \<noteq> fid \<longrightarrow> futures s' k = futures s k) \<and>
     (futures s fid = Pending \<longrightarrow> x = None \<longrightarrow> futures s' fid \<noteq> Pending) \<and>
     (futures s fid = Pending \<longrightarrow> x \<noteq> None \<longrightarrow> futures s' fid = Pending)"
  using assms
  by (auto simp: run_item_def set_result_def set_exception_def Let_def
      split: option.splits sum.splits future.splits if_splits prod.splits)



lemma set_status_fields [simp]:
  "self_task_queue (set_status tid st s) = self_task_queue s"
  "next_future (set_status tid st s) = next_future s"
  "futures (set_status tid st s) = futures s"
  "self_ib (set_status tid st s) = self_ib s"
  "self_running (set_status tid st s) = self_running s"
  "self_connected (set_status tid st s) = self_connected s"
  "length (threads (set_status tid st s)) = length (threads s)"
  by (simp_all add: set_status_def)




text \<open>A thread that has left its loop does nothing more.\<close>

lemma not_looping_run:
  assumes "\<not> is_status tid Looping s"
  shows "worker_run env tid n s = (replicate n NotLooping, s)"
  using assms by (induction n) (simp_all add: worker_iter_def)

text \<open>The worker's loop leaves the closure variables of \<^verbatim>\<open>start\<close> alone.\<close>

lemma worker_iter_connect_done:
  assumes "i < length (threads s)"
  shows "connect_done (threads (snd (worker_iter env tid s)) ! i) = connect_done (threads s ! i)"
proof -
  have upd: "connect_done ((ws[tid := (ws ! tid)\<lparr>w_status := st\<rparr>]) ! i) = connect_done (ws ! i)"
    if "i < length ws" for ws :: "worker list" and st
    using that by (cases "i = tid") simp_all
  have item: "threads s' = threads s" if "run_item item (s\<lparr>self_task_queue := rest\<rparr>) = Some (r, s')"
    for item rest r s'
    using run_item_frame [of "fst item" "snd item" "s\<lparr>self_task_queue := rest\<rparr>" r s'] that by simp
  show ?thesis
    using assms
    by (auto simp: worker_iter_def set_status_def upd queue_get_def
        split: prod.splits sum.splits option.splits list.splits dest!: item)
qed

section \<open>The handshake and start\<close>

lemma not_Exception_cases:
  "\<not> is_Exception e \<Longrightarrow> e \<in> {CancelledError, SystemExit, KeyboardInterrupt}"
  by (cases e) simp_all

lemma start_late:
  assumes "\<not> event_wait connect_latency 30"
  shows "start env host port client_id connect_latency s =
     (Inr (), s\<lparr>self_running := True, self_thread := Some (length (threads s)),
                 threads := threads s @ [new_worker host port client_id]\<rparr>)"
  using assms by (simp add: start_def Let_def)

lemma start_in_time:
  assumes "event_wait connect_latency 30"
  shows "start env host port client_id connect_latency s =
     (Inr (), worker_handshake env (length (threads s))
        (s\<lparr>self_running := True, self_thread := Some (length (threads s)),
                 threads := threads s @ [new_worker host port client_id]\<rparr>))"
  using assms by (simp add: start_def Let_def)

lemma handshake_connecting:
  assumes "is_status tid Connecting s"
  shows "connect_done (threads (worker_handshake env tid s) ! tid) = Suc (connect_done (threads s ! tid))"
    and "\<not> is_status tid Connecting (worker_handshake env tid s)"
    and "self_running (worker_handshake env tid s) = self_running s"
    and "fst (ib_connect env (w_host (threads s ! tid)) (w_port (threads s ! tid))
            (w_client_id (threads s ! tid)) (self_ib s)) = Inr () \<Longrightarrow>
         self_connected (worker_handshake env tid s) \<and>
         is_status tid Looping (worker_handshake env tid s)"
    and "fst (ib_connect env (w_host (threads s ! tid)) (w_port (threads s ! tid))
            (w_client_id (threads s ! tid)) (self_ib s)) = Inl e \<Longrightarrow> is_Exception e \<Longrightarrow>
         connect_error (threads (worker_handshake env tid s) ! tid) = connect_error (threads s ! tid) @ [e] \<and>
         self_connected (worker_handshake env tid s) = self_connected s \<and>
         is_status tid Looping (worker_handshake env tid s)"
    and "fst (ib_connect env (w_host (threads s ! tid)) (w_port (threads s ! tid))
            (w_client_id (threads s ! tid)) (self_ib s)) = Inl e \<Longrightarrow> \<not> is_Exception e \<Longrightarrow>
         connect_error (threads (worker_handshake env tid s) ! tid) = connect_error (threads s ! tid) \<and>
         self_connected (worker_handshake env tid s) = self_connected s \<and>
         is_status tid (Dead e) (worker_handshake env tid s)"
    and "w_status (threads (worker_handshake env tid s) ! tid) \<in>
           insert Looping (Dead ` {CancelledError, SystemExit, KeyboardInterrupt})"
  using assms
  by (auto simp: worker_handshake_def is_status_def Let_def
      split: prod.splits sum.splits dest: not_Exception_cases)

lemma handshake_threads:
  "length (threads (worker_handshake env tid s)) = length (threads s)"
  "take tid (threads (worker_handshake env tid s)) = take tid (threads s)"
  "self_thread (worker_handshake env tid s) = self_thread s"
  "self_running (worker_handshake env tid s) = self_running s"
  by (auto simp: worker_handshake_def Let_def split: prod.splits sum.splits)

section \<open>Runs\<close>




lemma dequeued_append: "dequeued (xs @ ys) = dequeued xs @ dequeued ys"
  by (induction xs rule: dequeued.induct) auto


lemma dequeued_map: "dequeued (map (\<lambda>item. Executed (snd item)) xs) = map snd xs"
  by (induction xs) auto

text \<open>
  A worker in its loop takes the items at the head of the queue one after another and,
  when their calls return or raise instances of \<^verbatim>\<open>Exception\<close>, does what \<open>serial\<close>
  does.
\<close>

lemma drain:
  assumes "is_status tid Looping s" and "self_running s" and "queue_ok s"
    and "self_task_queue s = xs @ ys" and "serial xs (self_ib s) = Some (rs, c)"
  shows "fst (worker_run env tid (length xs) s) = map (\<lambda>item. Executed (snd item)) xs \<and>
     self_task_queue (snd (worker_run env tid (length xs) s)) = ys \<and>
     is_status tid Looping (snd (worker_run env tid (length xs) s)) \<and>
     self_running (snd (worker_run env tid (length xs) s)) \<and>
     queue_ok (snd (worker_run env tid (length xs) s)) \<and>
     next_future (snd (worker_run env tid (length xs) s)) = next_future s \<and>
     threads (snd (worker_run env tid (length xs) s)) = threads s \<and>
     self_connected (snd (worker_run env tid (length xs) s)) = self_connected s \<and>
     self_ib (snd (worker_run env tid (length xs) s)) = c \<and>
     map fst rs = map snd xs \<and>
     (\<forall>k. k \<notin> snd ` set xs \<longrightarrow> futures (snd (worker_run env tid (length xs) s)) k = futures s k) \<and>
     (\<forall>p \<in> set rs. futures (snd (worker_run env tid (length xs) s)) (fst p) = Finished (snd p))"
  using assms
proof (induction xs arbitrary: s rs)
  case Nil
  then show ?case by simp
next
  case (Cons item xs)
  obtain f fid where item: "item = (f, fid)" by (cases item)
  obtain r c1 rs1 where call: "f (self_ib s) = Some (r, c1)" and h: "handled r"
    and ser: "serial xs c1 = Some (rs1, c)" and rs: "rs = (fid, r) # rs1"
    using Cons.prems(5) unfolding item
    by (auto split: option.splits if_splits)
  define s1 where "s1 = s\<lparr>self_task_queue := xs @ ys, self_ib := c1,
              futures := (futures s)(fid := Finished r)\<rparr>"
  have q: "self_task_queue s = (f, fid) # (xs @ ys)" using Cons.prems(4) item by simp
  have pend: "futures s fid = Pending" using Cons.prems(3) q by (rule queue_ok_head)
  have step: "worker_iter env tid s = (Executed fid, s1)"
    unfolding s1_def using Cons.prems(1,2) q pend call h by (rule worker_iter_item)
  have ok1: "queue_ok s1" unfolding s1_def using Cons.prems(3) q by (rule queue_ok_after_item)
  have l1: "is_status tid Looping s1" and r1: "self_running s1" and q1: "self_task_queue s1 = xs @ ys"
    and ser1: "serial xs (self_ib s1) = Some (rs1, c)"
    using Cons.prems(1,2) ser by (simp_all add: s1_def)
  note IH = Cons.IH [OF l1 r1 ok1 q1 ser1]
  have notin: "fid \<notin> snd ` set xs"
    using Cons.prems(3) q by (auto simp: queue_ok_iff)
  have run: "worker_run env tid (length (item # xs)) s =
      (Executed fid # fst (worker_run env tid (length xs) s1), snd (worker_run env tid (length xs) s1))"
    using step by (simp add: split_beta)
  have s1f: "next_future s1 = next_future s" "threads s1 = threads s"
    "self_connected s1 = self_connected s"
    "futures s1 = (futures s)(fid := Finished r)"
    by (simp_all add: s1_def)
  have fin: "futures (snd (worker_run env tid (length xs) s1)) fid = Finished r"
    using IH notin s1f(4) by simp
  show ?case
    unfolding run rs using IH fin unfolding s1f item
    by auto
qed



section \<open>Evaluation of the examples\<close>

lemmas bench_defs = started_def env_ok_def op_count_def op_boom_def op_cancelled_def init_def
  start_def event_wait_def new_worker_def worker_handshake_def is_status_def execute_put_def
  queue_put_def queue_ok_def Let_def

lemmas step_defs = worker_iter_def queue_get_def run_item_def set_result_def set_exception_def
  set_status_def

section \<open>Crash isolation\<close>

text \<open>
  Claim C1, as the code has it. A work item whose operation raises an instance of
  \<^verbatim>\<open>Exception\<close> has its future rejected with that exception by
  \<^verbatim>\<open>set_exception\<close>; the worker stays in its loop, and an operation submitted
  afterwards is dequeued, once the items ahead of it have run, and its future is finished
  with its own outcome.
\<close>

theorem crash_isolation:
  assumes "is_status tid Looping s" and "self_running s" and "queue_ok s"
    and "self_task_queue s = (f, fid) # rest"
    and "f (self_ib s) = Some (Inl e, c)" and "is_Exception e"
    and "worker_iter env tid s = (l1, s1)"
    and "execute_put g s1 = (fid2, s2)"
    and "serial rest c = Some (rs, c3)"
    and "worker_run env tid (length rest) s2 = (ls, s3)"
    and "g c3 = Some (r, c4)" and "handled r"
    and "worker_iter env tid s3 = (l4, s4)"
  shows "l1 = Executed fid \<and> futures s1 fid = Finished (Inl e) \<and>
     is_status tid Looping s1 \<and> self_running s1 \<and> self_task_queue s1 = rest \<and>
     l4 = Executed fid2 \<and> futures s4 fid2 = Finished r \<and>
     futures s4 fid = Finished (Inl e) \<and> is_status tid Looping s4 \<and> self_running s4"
proof -
  have pend: "futures s fid = Pending" using assms(3,4) by (rule queue_ok_head)
  have he: "handled (Inl e :: exn + 'b)" using assms(6) by (simp add: handled_def)
  have s1: "s1 = s\<lparr>self_task_queue := rest, self_ib := c,
              futures := (futures s)(fid := Finished (Inl e))\<rparr>" and l1: "l1 = Executed fid"
    using worker_iter_item [OF assms(1,2,4) pend assms(5) he, of env] assms(7) by simp_all
  have ok1: "queue_ok s1"
    unfolding s1 using assms(3,4) by (rule queue_ok_after_item)
  have first: "futures s1 fid = Finished (Inl e)" "is_status tid Looping s1" "self_running s1"
    "self_task_queue s1 = rest"
    using assms(1,2) by (simp_all add: s1)
  have fidlt: "fid < next_future s1" and notin: "fid \<notin> snd ` set rest"
    using assms(3,4) by (auto simp: queue_ok_iff s1)
  have s2: "s2 = snd (execute_put g s1)" and fid2: "fid2 = next_future s1"
    using assms(8) execute_put_fields(1) [of g s1] by simp_all
  have ok2: "queue_ok s2" unfolding s2 using ok1 by (rule queue_ok_execute_put)
  have q2: "self_task_queue s2 = rest @ [(g, fid2)]"
    and l2: "is_status tid Looping s2" and r2: "self_running s2"
    and f2: "futures s2 fid = Finished (Inl e)"
    and ser: "serial rest (self_ib s2) = Some (rs, c3)"
    using first fidlt assms(9) by (simp_all add: s2 fid2) (simp add: s1)
  have s3: "s3 = snd (worker_run env tid (length rest) s2)" using assms(10) by simp
  note d = drain [OF l2 r2 ok2 q2 ser, of env, folded s3]
  have pend3: "futures s3 fid2 = Pending" using d by (auto intro: queue_ok_head)
  have f3: "futures s3 fid = Finished (Inl e)" using d notin f2 by simp
  have call: "g (self_ib s3) = Some (r, c4)" using d assms(11) by simp
  have s4: "s4 = s3\<lparr>self_task_queue := [], self_ib := c4,
              futures := (futures s3)(fid2 := Finished r)\<rparr>"
    and l4: "l4 = Executed fid2"
    using worker_iter_item [of tid s3 g fid2 "[]" r c4 env] d pend3 call assms(12,13) by simp_all
  have ne: "fid \<noteq> fid2" using fidlt fid2 by simp
  show ?thesis
    using l1 first l4 f3 ne d by (simp add: s4)
qed

theorem crash_isolation_witness:
  "is_status 0 Looping (snd (execute_put op_boom started)) \<and>
   self_running (snd (execute_put op_boom started)) \<and>
   queue_ok (snd (execute_put op_boom started)) \<and>
   is_Exception (Error ''boom'') \<and>
   futures (snd (worker_iter env_ok 0 (snd (execute_put op_boom started)))) 0
     = Finished (Inl (Error ''boom'')) \<and>
   futures (snd (worker_iter env_ok 0 (snd (execute_put op_count
       (snd (worker_iter env_ok 0 (snd (execute_put op_boom started)))))))) 1
     = Finished (Inr 0)"
proof -
  define s where "s = snd (execute_put op_boom started)"
  define s1 where "s1 = snd (worker_iter env_ok 0 s)"
  define s2 where "s2 = snd (execute_put op_count s1)"
  have h1: "is_status 0 Looping s" by (simp add: s_def bench_defs)
  have h2: "self_running s" by (simp add: s_def bench_defs)
  have h3: "queue_ok s" by (simp add: s_def bench_defs)
  have h4: "self_task_queue s = (op_boom, 0) # []" by (simp add: s_def bench_defs)
  have h5: "op_boom (self_ib s) = Some (Inl (Error ''boom''), 0)"
    by (simp add: s_def bench_defs)
  have h6: "is_Exception (Error ''boom'')" by simp
  have h7: "worker_iter env_ok 0 s = (fst (worker_iter env_ok 0 s), s1)" by (simp add: s1_def)
  have h8: "execute_put op_count s1 = (fst (execute_put op_count s1), s2)"
    by (simp add: s2_def prod_eq_iff)
  have h9: "serial [] (0 :: int) = Some ([] :: (nat \<times> (exn + int)) list, 0)" by simp
  have h10: "worker_run env_ok 0 (length []) s2 = ([], s2)" by simp
  have h11: "op_count 0 = Some (Inr 0, 1)" by (simp add: op_count_def)
  have h12: "handled (Inr 0 :: exn + int)" by (simp add: handled_def)
  have h13: "worker_iter env_ok 0 s2 = (fst (worker_iter env_ok 0 s2), snd (worker_iter env_ok 0 s2))"
    by simp
  note th = crash_isolation [OF h1 h2 h3 h4 h5 h6 h7 h8 h9 h10 h11 h12 h13]
  have p0: "futures s 0 = Pending" by (simp add: s_def bench_defs)
  have fid2: "fst (execute_put op_count s1) = 1"
    using worker_iter_item [OF h1 h2 h4 p0 h5, of env_ok] h6
    by (simp add: s1_def handled_def) (simp add: s_def bench_defs)
  show ?thesis
    using h1 h2 h3 th fid2 unfolding s_def s1_def s2_def
    by simp
qed

text \<open>
  Claim C1 as stated fails for an exception outside \<^verbatim>\<open>Exception\<close>: an operation that
  raises \<^verbatim>\<open>asyncio.CancelledError\<close> is not caught, its future stays pending, the
  thread ends, and an operation submitted afterwards is never executed.
\<close>

theorem crash_isolation_counterexample:
  "self_task_queue (snd (execute_put op_cancelled started)) = [(op_cancelled, 0)] \<and>
   fst (worker_iter env_ok 0 (snd (execute_put op_cancelled started))) = Escaped 0 CancelledError \<and>
   futures cancelled 0 = Pending \<and>
   is_status 0 (Dead CancelledError) cancelled \<and>
   fst (worker_run env_ok 0 2 (snd (execute_put op_count cancelled))) = [NotLooping, NotLooping] \<and>
   futures (snd (worker_run env_ok 0 2 (snd (execute_put op_count cancelled)))) 1 = Pending"
  by (simp add: cancelled_def bench_defs step_defs numeral_2_eq_2)

section \<open>FIFO order\<close>



section \<open>Pumping while idle\<close>



section \<open>The timeout of start\<close>

text \<open>
  Claim C4, as the code has it. \<^verbatim>\<open>start\<close> blocks its caller on \<^verbatim>\<open>connect_done\<close> for
  up to 30 seconds. When the event is not set in that time, \<^verbatim>\<open>start\<close> still returns
  \<^verbatim>\<open>None\<close>: the result of the wait is dropped and no failure is reported. The thread is
  not killed: it is still in its handshake, and when \<^verbatim>\<open>ib.connect\<close> returns later,
  \<^verbatim>\<open>_connected\<close> is set and the thread enters its loop. When the event is set within
  the 30 seconds, \<^verbatim>\<open>start\<close> returns \<^verbatim>\<open>None\<close> after the handshake: the service is the
  one the handshake left, with the event signalled once.
\<close>

theorem start_timeout_returns_none:
  "(\<not> event_wait connect_latency 30 \<longrightarrow>
     fst (start env host port client_id connect_latency s) = Inr () \<and>
     is_status (length (threads s)) Connecting (snd (start env host port client_id connect_latency s)) \<and>
     self_running (snd (start env host port client_id connect_latency s)) \<and>
     self_connected (snd (start env host port client_id connect_latency s)) = self_connected s \<and>
     (fst (ib_connect env host port client_id (self_ib s)) = Inr () \<longrightarrow>
        self_connected (worker_handshake env (length (threads s))
          (snd (start env host port client_id connect_latency s))) \<and>
        is_status (length (threads s)) Looping (worker_handshake env (length (threads s))
          (snd (start env host port client_id connect_latency s))))) \<and>
   (event_wait connect_latency 30 \<longrightarrow>
     fst (start env host port client_id connect_latency s) = Inr () \<and>
     snd (start env host port client_id connect_latency s) =
       worker_handshake env (length (threads s))
         (s\<lparr>self_running := True, self_thread := Some (length (threads s)),
            threads := threads s @ [new_worker host port client_id]\<rparr>) \<and>
     \<not> is_status (length (threads s)) Connecting (snd (start env host port client_id connect_latency s)) \<and>
     connect_done (threads (snd (start env host port client_id connect_latency s)) ! length (threads s)) = 1 \<and>
     (fst (ib_connect env host port client_id (self_ib s)) = Inr () \<longrightarrow>
        self_connected (snd (start env host port client_id connect_latency s)) \<and>
        is_status (length (threads s)) Looping (snd (start env host port client_id connect_latency s))))"
proof -
  define s' where "s' = s\<lparr>self_running := True, self_thread := Some (length (threads s)),
                 threads := threads s @ [new_worker host port client_id]\<rparr>"
  have c: "is_status (length (threads s)) Connecting s'"
    by (simp add: s'_def is_status_def new_worker_def)
  have w: "threads s' ! length (threads s) = new_worker host port client_id" "self_ib s' = self_ib s"
    by (simp_all add: s'_def)
  note hs = handshake_connecting [OF c, of env]
  have later: "self_connected (worker_handshake env (length (threads s)) s') \<and>
        is_status (length (threads s)) Looping (worker_handshake env (length (threads s)) s')"
    if "fst (ib_connect env host port client_id (self_ib s)) = Inr ()"
    using hs(4) that w by (simp add: new_worker_def)
  have late: "start env host port client_id connect_latency s = (Inr (), s')"
    if "\<not> event_wait connect_latency 30"
    unfolding s'_def using that by (rule start_late)
  have intime: "start env host port client_id connect_latency s =
      (Inr (), worker_handshake env (length (threads s)) s')"
    if "event_wait connect_latency 30"
    unfolding s'_def using that by (rule start_in_time)
  have cd: "connect_done (threads (worker_handshake env (length (threads s)) s') ! length (threads s)) = 1"
    using hs(1) w by (simp add: new_worker_def)
  have A: "fst (start env host port client_id connect_latency s) = Inr () \<and>
     is_status (length (threads s)) Connecting (snd (start env host port client_id connect_latency s)) \<and>
     self_running (snd (start env host port client_id connect_latency s)) \<and>
     self_connected (snd (start env host port client_id connect_latency s)) = self_connected s \<and>
     (fst (ib_connect env host port client_id (self_ib s)) = Inr () \<longrightarrow>
        self_connected (worker_handshake env (length (threads s))
          (snd (start env host port client_id connect_latency s))) \<and>
        is_status (length (threads s)) Looping (worker_handshake env (length (threads s))
          (snd (start env host port client_id connect_latency s))))"
    if "\<not> event_wait connect_latency 30"
    using late [OF that] c later by (simp add: s'_def)
  have B: "fst (start env host port client_id connect_latency s) = Inr () \<and>
     snd (start env host port client_id connect_latency s) =
       worker_handshake env (length (threads s)) s' \<and>
     \<not> is_status (length (threads s)) Connecting (snd (start env host port client_id connect_latency s)) \<and>
     connect_done (threads (snd (start env host port client_id connect_latency s)) ! length (threads s)) = 1 \<and>
     (fst (ib_connect env host port client_id (self_ib s)) = Inr () \<longrightarrow>
        self_connected (snd (start env host port client_id connect_latency s)) \<and>
        is_status (length (threads s)) Looping (snd (start env host port client_id connect_latency s)))"
    if "event_wait connect_latency 30"
    using intime [OF that] hs(2) cd later by simp
  show ?thesis using A B unfolding s'_def by blast
qed

theorem start_timeout_returns_none_witness:
  "\<not> event_wait (Some 45) 30 \<and> event_wait (Some 20) 30 \<and>
   fst (start env_ok ''127.0.0.1'' 7497 1 (Some 45) (init 0 :: (int, int) ibkr_service)) = Inr () \<and>
   is_status 0 Connecting (snd (start env_ok ''127.0.0.1'' 7497 1 (Some 45) (init 0 :: (int, int) ibkr_service))) \<and>
   self_connected (worker_handshake env_ok 0
     (snd (start env_ok ''127.0.0.1'' 7497 1 (Some 45) (init 0 :: (int, int) ibkr_service)))) \<and>
   fst (start env_ok ''127.0.0.1'' 7497 1 (Some 20) (init 0 :: (int, int) ibkr_service)) = Inr () \<and>
   is_status 0 Looping (snd (start env_ok ''127.0.0.1'' 7497 1 (Some 20) (init 0 :: (int, int) ibkr_service))) \<and>
   connect_done (threads (snd (start env_ok ''127.0.0.1'' 7497 1 (Some 20) (init 0 :: (int, int) ibkr_service))) ! 0) = 1"
proof -
  have h: "\<not> event_wait (Some 45) 30" "event_wait (Some 20) 30" by (simp_all add: event_wait_def)
  have c: "fst (ib_connect env_ok ''127.0.0.1'' 7497 1 (self_ib (init 0 :: (int, int) ibkr_service))) = Inr ()"
    by (simp add: env_ok_def)
  note th1 = start_timeout_returns_none [of "Some 45" env_ok "''127.0.0.1''" 7497 1 "init 0 :: (int, int) ibkr_service"]
  note th2 = start_timeout_returns_none [of "Some 20" env_ok "''127.0.0.1''" 7497 1 "init 0 :: (int, int) ibkr_service"]
  have l: "length (threads (init 0 :: (int, int) ibkr_service)) = 0" by (simp add: init_def)
  show ?thesis using h th1 th2 c unfolding l by blast
qed

text \<open>
  Claim C4 as stated fails: with a handshake that never completes, \<^verbatim>\<open>start\<close> returns
  \<^verbatim>\<open>None\<close>, not a timeout failure.
\<close>

theorem start_timeout_counterexample:
  "\<not> event_wait None 30 \<and>
   fst (start env_ok ''127.0.0.1'' 7497 1 None (init 0 :: (int, int) ibkr_service)) = Inr () \<and>
   fst (start env_ok ''127.0.0.1'' 7497 1 None (init 0 :: (int, int) ibkr_service)) \<noteq> Inl TimeoutError"
  by (simp add: event_wait_def start_def Let_def)

section \<open>Errors of the handshake\<close>

text \<open>
  Claim C5, as the code has it. An instance of \<^verbatim>\<open>Exception\<close> raised by
  \<^verbatim>\<open>ib.connect\<close> is caught on the worker thread and appended to \<^verbatim>\<open>connect_error\<close>,
  and the thread goes on to its loop; an exception outside \<^verbatim>\<open>Exception\<close> is not
  caught and ends the thread. Whatever is raised, \<^verbatim>\<open>connect_done.set()\<close> is called
  exactly once, by the handshake and by nothing after it, and \<^verbatim>\<open>_connected\<close> and
  \<^verbatim>\<open>_running\<close> keep their values.
\<close>

theorem connect_error_captured:
  assumes "is_status tid Connecting s"
    and "fst (ib_connect env (w_host (threads s ! tid)) (w_port (threads s ! tid))
            (w_client_id (threads s ! tid)) (self_ib s)) = Inl e"
  shows "connect_done (threads (worker_handshake env tid s) ! tid) = Suc (connect_done (threads s ! tid)) \<and>
     self_connected (worker_handshake env tid s) = self_connected s \<and>
     self_running (worker_handshake env tid s) = self_running s \<and>
     worker_handshake env tid (worker_handshake env tid s) = worker_handshake env tid s \<and>
     connect_done (threads (snd (worker_iter env tid (worker_handshake env tid s))) ! tid) =
       Suc (connect_done (threads s ! tid)) \<and>
     (is_Exception e \<longrightarrow>
        connect_error (threads (worker_handshake env tid s) ! tid) = connect_error (threads s ! tid) @ [e] \<and>
        is_status tid Looping (worker_handshake env tid s)) \<and>
     (\<not> is_Exception e \<longrightarrow>
        connect_error (threads (worker_handshake env tid s) ! tid) = connect_error (threads s ! tid) \<and>
        is_status tid (Dead e) (worker_handshake env tid s))"
proof -
  note h = handshake_connecting [OF assms(1), of env]
  have again: "worker_handshake env tid (worker_handshake env tid s) = worker_handshake env tid s"
    using h(2) by (simp add: worker_handshake_def [of env tid "worker_handshake env tid s"])
  have "tid < length (threads (worker_handshake env tid s))"
    using assms(1) by (simp add: handshake_threads is_status_def)
  then have "connect_done (threads (snd (worker_iter env tid (worker_handshake env tid s))) ! tid) =
       connect_done (threads (worker_handshake env tid s) ! tid)"
    by (rule worker_iter_connect_done)
  moreover have "self_connected (worker_handshake env tid s) = self_connected s"
    using h(5) [OF assms(2)] h(6) [OF assms(2)] by blast
  ultimately show ?thesis
    using h(1,3) h(5) [OF assms(2)] h(6) [OF assms(2)] again by simp
qed

theorem connect_error_captured_witness:
  "is_status 0 Connecting (connecting (Error ''refused'')) \<and>
   is_Exception (Error ''refused'') \<and>
   connect_error (threads (worker_handshake (env_refused (Error ''refused'')) 0
       (connecting (Error ''refused''))) ! 0) = [Error ''refused''] \<and>
   connect_done (threads (worker_handshake (env_refused (Error ''refused'')) 0
       (connecting (Error ''refused''))) ! 0) = 1 \<and>
   \<not> self_connected (worker_handshake (env_refused (Error ''refused'')) 0
       (connecting (Error ''refused''))) \<and>
   is_status 0 Connecting (connecting CancelledError) \<and>
   \<not> is_Exception CancelledError \<and>
   connect_done (threads (worker_handshake (env_refused CancelledError) 0
       (connecting CancelledError)) ! 0) = 1 \<and>
   is_status 0 (Dead CancelledError) (worker_handshake (env_refused CancelledError) 0
       (connecting CancelledError))"
proof -
  have h1: "is_status 0 Connecting (connecting e)" for e
    by (simp add: connecting_def bench_defs)
  have h2: "fst (ib_connect (env_refused e)
       (w_host (threads (connecting e) ! 0))
       (w_port (threads (connecting e) ! 0))
       (w_client_id (threads (connecting e) ! 0))
       (self_ib (connecting e))) = Inl e" for e
    by (simp add: env_refused_def)
  note th1 = connect_error_captured [OF h1 h2, of "Error ''refused''"]
  note th2 = connect_error_captured [OF h1 h2, of CancelledError]
  have before: "connect_error (threads (connecting e) ! 0) = []"
    "connect_done (threads (connecting e) ! 0) = 0"
    "\<not> self_connected (connecting e)" for e
    by (simp_all add: connecting_def bench_defs)
  show ?thesis using h1 th1 th2 before by simp
qed

text \<open>
  Claim C5 as stated fails twice. The reason does not reach the caller of \<^verbatim>\<open>start\<close>:
  two handshakes that fail with different exceptions give the same return value and the
  same service object, and differ only in the \<^verbatim>\<open>connect_error\<close> list local to each
  call. And not every exception is captured: \<^verbatim>\<open>asyncio.CancelledError\<close> raised by
  \<^verbatim>\<open>ib.connect\<close> is not appended to \<^verbatim>\<open>connect_error\<close> and ends the thread.
\<close>

theorem connect_error_counterexample:
  "Error ''refused'' \<noteq> Error ''no route'' \<and>
   fst (start (env_refused (Error ''refused'')) ''127.0.0.1'' 7497 1 (Some 1) (init 0 :: (int, int) ibkr_service))
     = Inr () \<and>
   fst (start (env_refused (Error ''no route'')) ''127.0.0.1'' 7497 1 (Some 1) (init 0 :: (int, int) ibkr_service))
     = Inr () \<and>
   (snd (start (env_refused (Error ''refused'')) ''127.0.0.1'' 7497 1 (Some 1) (init 0 :: (int, int) ibkr_service)))
     \<lparr>threads := []\<rparr>
   = (snd (start (env_refused (Error ''no route'')) ''127.0.0.1'' 7497 1 (Some 1) (init 0 :: (int, int) ibkr_service)))
     \<lparr>threads := []\<rparr> \<and>
   connect_error (threads (snd (start (env_refused CancelledError) ''127.0.0.1'' 7497 1 (Some 1)
     (init 0 :: (int, int) ibkr_service))) ! 0) = [] \<and>
   is_status 0 (Dead CancelledError) (snd (start (env_refused CancelledError) ''127.0.0.1'' 7497 1 (Some 1)
     (init 0 :: (int, int) ibkr_service)))"
  by (simp add: bench_defs env_refused_def)

section \<open>Exceptions of the pump\<close>

text \<open>
  Claim C6, as the code has it. The call of \<^verbatim>\<open>ib.sleep\<close> stands in the
  \<^verbatim>\<open>except queue.Empty\<close> handler with no \<^verbatim>\<open>try\<close> around it: an exception it raises
  leaves the loop and ends the worker thread, and no later pass runs. Nothing is recorded:
  \<^verbatim>\<open>_connected\<close> and \<^verbatim>\<open>_running\<close> stay set, the queue and the futures are as
  they were.
\<close>

theorem pump_exception_ends_worker:
  assumes "is_status tid Looping s" and "self_running s" and "self_task_queue s = []"
    and "self_connected s" and "fst (ib_sleep env 0.01 (self_ib s)) = Inl e"
  shows "fst (worker_iter env tid s) = Died e \<and>
     is_status tid (Dead e) (snd (worker_iter env tid s)) \<and>
     self_connected (snd (worker_iter env tid s)) \<and>
     self_running (snd (worker_iter env tid s)) \<and>
     self_task_queue (snd (worker_iter env tid s)) = [] \<and>
     futures (snd (worker_iter env tid s)) = futures s \<and>
     worker_run env tid n (snd (worker_iter env tid s)) =
       (replicate n NotLooping, snd (worker_iter env tid s))"
proof -
  obtain c where p: "ib_sleep env 0.01 (self_ib s) = (Inl e, c)"
    using assms(5) by (cases "ib_sleep env 0.01 (self_ib s)") simp
  have step: "worker_iter env tid s = (Died e, set_status tid (Dead e) (s\<lparr>self_ib := c\<rparr>))"
    using assms(1-4) p by (simp add: worker_iter_def queue_get_def)
  have dead: "is_status tid (Dead e) (set_status tid (Dead e) (s\<lparr>self_ib := c\<rparr>))"
    using assms(1) by (simp add: is_status_def set_status_def)
  then have "\<not> is_status tid Looping (set_status tid (Dead e) (s\<lparr>self_ib := c\<rparr>))"
    by (simp add: is_status_def)
  then have "worker_run env tid n (set_status tid (Dead e) (s\<lparr>self_ib := c\<rparr>)) =
       (replicate n NotLooping, set_status tid (Dead e) (s\<lparr>self_ib := c\<rparr>))"
    by (rule not_looping_run)
  then show ?thesis
    using step dead assms(2-4) by (simp add: set_status_def)
qed

theorem pump_exception_ends_worker_witness:
  "is_status 0 Looping pump_failing \<and> self_running pump_failing \<and>
   self_task_queue pump_failing = [] \<and> self_connected pump_failing \<and>
   fst (worker_iter env_pump_fails 0 pump_failing) = Died (Error ''pump'') \<and>
   is_status 0 (Dead (Error ''pump'')) (snd (worker_iter env_pump_fails 0 pump_failing))"
proof -
  have h: "is_status 0 Looping pump_failing" "self_running pump_failing"
    "self_task_queue pump_failing = []" "self_connected pump_failing"
    by (simp_all add: pump_failing_def env_pump_fails_def bench_defs)
  have p: "fst (ib_sleep env_pump_fails 0.01 (self_ib pump_failing)) = Inl (Error ''pump'')"
    by (simp add: env_pump_fails_def)
  note th = pump_exception_ends_worker [OF h p, of 0]
  show ?thesis using h th by simp
qed

text \<open>
  Claim C6 as stated fails: after a pump that raises, the loop does not continue to a
  next iteration.
\<close>

theorem pump_exception_counterexample:
  "is_status 0 Looping pump_failing \<and> self_running pump_failing \<and>
   self_task_queue pump_failing = [] \<and> self_connected pump_failing \<and>
   fst (worker_run env_pump_fails 0 2 pump_failing) = [Died (Error ''pump''), NotLooping] \<and>
   \<not> is_status 0 Looping (snd (worker_iter env_pump_fails 0 pump_failing))"
  by (simp add: pump_failing_def env_pump_fails_def bench_defs step_defs numeral_2_eq_2)

section \<open>Work items and the connection state\<close>

text \<open>
  Claim C7, as the code has it. The worker does not look at the connection before it runs
  an item: a pass on a queued item does the same whatever \<^verbatim>\<open>_connected\<close> is. The
  operation of the dequeued item is called against the connection, and when the call
  returns, or raises an instance of \<^verbatim>\<open>Exception\<close>, its future is finished with that
  outcome and the worker stays in its loop.
\<close>

theorem item_runs_whatever_connected:
  assumes "is_status tid Looping s" and "self_running s" and "queue_ok s"
    and "self_task_queue s = (f, fid) # rest"
  shows "fst (worker_iter env tid (s\<lparr>self_connected := b\<rparr>)) = fst (worker_iter env tid s) \<and>
     snd (worker_iter env tid (s\<lparr>self_connected := b\<rparr>)) =
       (snd (worker_iter env tid s))\<lparr>self_connected := b\<rparr> \<and>
     (\<forall>r c. f (self_ib s) = Some (r, c) \<and> handled r \<longrightarrow>
        fst (worker_iter env tid (s\<lparr>self_connected := b\<rparr>)) = Executed fid \<and>
        futures (snd (worker_iter env tid (s\<lparr>self_connected := b\<rparr>))) fid = Finished r \<and>
        self_ib (snd (worker_iter env tid (s\<lparr>self_connected := b\<rparr>))) = c \<and>
        self_connected (snd (worker_iter env tid (s\<lparr>self_connected := b\<rparr>))) = b \<and>
        is_status tid Looping (snd (worker_iter env tid (s\<lparr>self_connected := b\<rparr>))) \<and>
        self_running (snd (worker_iter env tid (s\<lparr>self_connected := b\<rparr>))))"
proof -
  have pend: "futures s fid = Pending" using assms(3,4) by (rule queue_ok_head)
  have same: "worker_iter env tid (s\<lparr>self_connected := b\<rparr>) =
      (fst (worker_iter env tid s), (snd (worker_iter env tid s))\<lparr>self_connected := b\<rparr>)"
    using assms(1,2,4)
    by (auto simp: worker_iter_def queue_get_def run_item_def set_status_def Let_def
        set_result_def set_exception_def
        split: option.splits prod.splits sum.splits future.splits)
  have run: "fst (worker_iter env tid (s\<lparr>self_connected := b\<rparr>)) = Executed fid \<and>
        futures (snd (worker_iter env tid (s\<lparr>self_connected := b\<rparr>))) fid = Finished r \<and>
        self_ib (snd (worker_iter env tid (s\<lparr>self_connected := b\<rparr>))) = c \<and>
        self_connected (snd (worker_iter env tid (s\<lparr>self_connected := b\<rparr>))) = b \<and>
        is_status tid Looping (snd (worker_iter env tid (s\<lparr>self_connected := b\<rparr>))) \<and>
        self_running (snd (worker_iter env tid (s\<lparr>self_connected := b\<rparr>)))"
    if "f (self_ib s) = Some (r, c)" and "handled r" for r c
  proof -
    have "worker_iter env tid (s\<lparr>self_connected := b\<rparr>) =
        (Executed fid, s\<lparr>self_connected := b, self_task_queue := rest, self_ib := c,
                futures := (futures s)(fid := Finished r)\<rparr>)"
      using worker_iter_item [of tid "s\<lparr>self_connected := b\<rparr>" f fid rest r c env]
        assms(1,2,4) pend that
      by simp
    then show ?thesis using assms(1,2) by simp
  qed
  show ?thesis using same run by simp
qed

theorem item_runs_whatever_connected_witness:
  "is_status 0 Looping refused \<and> self_running refused \<and> queue_ok refused \<and>
   handled (Inr 0 :: exn + int) \<and>
   fst (worker_iter (env_refused (Error ''refused'')) 0 (refused\<lparr>self_connected := False\<rparr>)) = Executed 0 \<and>
   futures (snd (worker_iter (env_refused (Error ''refused'')) 0 (refused\<lparr>self_connected := False\<rparr>))) 0
     = Finished (Inr 0)"
proof -
  have h: "is_status 0 Looping refused" "self_running refused" "queue_ok refused"
    "self_task_queue refused = (op_count, 0) # []"
    by (simp_all add: refused_def env_refused_def bench_defs)
  have call: "op_count (self_ib refused) = Some (Inr 0, 1)"
    by (simp add: refused_def env_refused_def bench_defs)
  have hd: "handled (Inr 0 :: exn + int)" by (simp add: handled_def)
  note th = item_runs_whatever_connected [OF h, of "env_refused (Error ''refused'')" False]
  show ?thesis using h th call hd by blast
qed

text \<open>
  Claim C7 as stated fails: after a refused connection, with \<^verbatim>\<open>_connected\<close> false, a
  queued operation is executed against the connection and its future holds its result,
  not a Disconnected error.
\<close>

theorem disconnected_counterexample:
  "\<not> self_connected refused \<and> self_task_queue refused = [(op_count, 0)] \<and>
   fst (worker_iter (env_refused (Error ''refused'')) 0 refused) = Executed 0 \<and>
   futures (snd (worker_iter (env_refused (Error ''refused'')) 0 refused)) 0 = Finished (Inr 0) \<and>
   self_ib refused = 0 \<and>
   self_ib (snd (worker_iter (env_refused (Error ''refused'')) 0 refused)) = 1"
  by (simp add: refused_def env_refused_def bench_defs step_defs)

section \<open>Calling start again\<close>

text \<open>
  Claim C8, as the code has it. \<^verbatim>\<open>start\<close> has no guard: every call starts one more
  thread running \<^verbatim>\<open>_worker\<close>, leaves the threads started before as they are, and
  makes \<^verbatim>\<open>_thread\<close> refer to the new one. When \<^verbatim>\<open>start\<close> returns the new thread is
  in its handshake or in its loop, unless \<^verbatim>\<open>ib.connect\<close> raised past
  \<^verbatim>\<open>Exception\<close> and ended it.
\<close>

theorem start_spawns_thread:
  "length (threads (snd (start env host port client_id connect_latency s))) = Suc (length (threads s)) \<and>
   take (length (threads s)) (threads (snd (start env host port client_id connect_latency s))) = threads s \<and>
   self_thread (snd (start env host port client_id connect_latency s)) = Some (length (threads s)) \<and>
   self_running (snd (start env host port client_id connect_latency s)) \<and>
   (is_status (length (threads s)) Connecting (snd (start env host port client_id connect_latency s)) \<or>
    is_status (length (threads s)) Looping (snd (start env host port client_id connect_latency s)) \<or>
    is_status (length (threads s)) (Dead CancelledError) (snd (start env host port client_id connect_latency s)) \<or>
    is_status (length (threads s)) (Dead SystemExit) (snd (start env host port client_id connect_latency s)) \<or>
    is_status (length (threads s)) (Dead KeyboardInterrupt) (snd (start env host port client_id connect_latency s))) \<and>
   (handled (fst (ib_connect env host port client_id (self_ib s))) \<longrightarrow>
    is_status (length (threads s)) Connecting (snd (start env host port client_id connect_latency s)) \<or>
    is_status (length (threads s)) Looping (snd (start env host port client_id connect_latency s)))"
proof -
  define s2 where "s2 = s\<lparr>self_running := True, self_thread := Some (length (threads s)),
                 threads := threads s @ [new_worker host port client_id]\<rparr>"
  have c: "is_status (length (threads s)) Connecting s2"
    by (simp add: s2_def is_status_def new_worker_def)
  have w: "threads s2 ! length (threads s) = new_worker host port client_id" "self_ib s2 = self_ib s"
    by (simp_all add: s2_def)
  have st: "snd (start env host port client_id connect_latency s) =
      (if event_wait connect_latency 30 then worker_handshake env (length (threads s)) s2 else s2)"
    by (simp add: start_def Let_def s2_def)
  note hs = handshake_connecting [OF c, of env]
  have len: "length (threads (worker_handshake env (length (threads s)) s2)) = Suc (length (threads s))"
    by (simp add: handshake_threads) (simp add: s2_def)
  have status: "is_status (length (threads s)) Looping (worker_handshake env (length (threads s)) s2) \<or>
    is_status (length (threads s)) (Dead CancelledError) (worker_handshake env (length (threads s)) s2) \<or>
    is_status (length (threads s)) (Dead SystemExit) (worker_handshake env (length (threads s)) s2) \<or>
    is_status (length (threads s)) (Dead KeyboardInterrupt) (worker_handshake env (length (threads s)) s2)"
    using hs(7) len by (auto simp: is_status_def)
  have good: "is_status (length (threads s)) Looping (worker_handshake env (length (threads s)) s2)"
    if "handled (fst (ib_connect env host port client_id (self_ib s)))"
  proof (cases "fst (ib_connect env host port client_id (self_ib s))")
    case (Inl e)
    then show ?thesis using hs(5) [of e] that w by (simp add: new_worker_def handled_def)
  next
    case (Inr u)
    then show ?thesis using hs(4) w by (simp add: new_worker_def)
  qed
  show ?thesis
  proof (cases "event_wait connect_latency 30")
    case True
    have frame: "take (length (threads s)) (threads (worker_handshake env (length (threads s)) s2)) = threads s"
      "self_thread (worker_handshake env (length (threads s)) s2) = Some (length (threads s))"
      "self_running (worker_handshake env (length (threads s)) s2)"
      by (simp_all add: handshake_threads) (simp_all add: s2_def)
    show ?thesis using True len frame status good by (simp add: st)
  next
    case False
    then show ?thesis using c by (simp add: st) (simp add: s2_def)
  qed
qed

theorem start_spawns_thread_witness:
  "handled (fst (ib_connect env_ok ''127.0.0.1'' 7497 1 (self_ib started))) \<and>
   length (threads (snd (start env_ok ''127.0.0.1'' 7497 1 (Some 1) started))) = 2 \<and>
   self_thread (snd (start env_ok ''127.0.0.1'' 7497 1 (Some 1) started)) = Some 1 \<and>
   (is_status 1 Connecting (snd (start env_ok ''127.0.0.1'' 7497 1 (Some 1) started)) \<or>
    is_status 1 Looping (snd (start env_ok ''127.0.0.1'' 7497 1 (Some 1) started)))"
proof -
  have h: "handled (fst (ib_connect env_ok ''127.0.0.1'' 7497 1 (self_ib started)))"
    by (simp add: env_ok_def handled_def)
  have l: "length (threads started) = 1" by (simp add: bench_defs)
  note th = start_spawns_thread [of env_ok "''127.0.0.1''" 7497 1 "Some 1" started]
  show ?thesis using h th unfolding l by simp
qed

text \<open>
  Claim C8 as stated fails: after a second call of \<^verbatim>\<open>start\<close> two worker threads are
  in their loops on the same queue and connection.
\<close>

theorem start_twice_counterexample:
  "is_status 0 Looping started \<and>
   length (threads (snd (start env_ok ''127.0.0.1'' 7497 1 (Some 1) started))) = 2 \<and>
   is_status 0 Looping (snd (start env_ok ''127.0.0.1'' 7497 1 (Some 1) started)) \<and>
   is_status 1 Looping (snd (start env_ok ''127.0.0.1'' 7497 1 (Some 1) started))"
  by (simp add: bench_defs)

section \<open>A caller that stops waiting\<close>

text \<open>
  Claim C9. A caller whose wait in \<^verbatim>\<open>execute\<close> ends while its future is pending gets
  the timeout error, and the wait changes nothing: the service, its queue and its worker
  are as they were. The worker still executes the items ahead, then the operation of the
  caller that gave up, whose future is finished though nobody reads it, then the item
  another caller submitted after it. The operations are ones that return or raise an
  instance of \<^verbatim>\<open>Exception\<close>.
\<close>

theorem await_timeout_leaves_worker:
  assumes "is_status tid Looping s" and "self_running s" and "queue_ok s"
    and "execute_put f s = (fid, s1)"
    and "execute_await fid executor_delay done_after s1 = (r, s1')"
    and "execute_put g s1' = (fid', s2)"
    and "serial (self_task_queue s) (self_ib s) = Some (rs, c3)"
    and "worker_run env tid (length (self_task_queue s)) s2 = (ls, s3)"
    and "f (self_ib s3) = Some (r4, c4)" and "handled r4"
    and "worker_iter env tid s3 = (l4, s4)"
    and "g (self_ib s4) = Some (r5, c5)" and "handled r5"
    and "worker_iter env tid s4 = (l5, s5)"
  shows "r = Inl TimeoutError \<and> s1' = s1 \<and>
     ls = map (\<lambda>item. Executed (snd item)) (self_task_queue s) \<and>
     (\<forall>p \<in> set rs. futures s3 (fst p) = Finished (snd p)) \<and> self_ib s3 = c3 \<and>
     l4 = Executed fid \<and> futures s4 fid = Finished r4 \<and> self_ib s4 = c4 \<and>
     l5 = Executed fid' \<and> futures s5 fid' = Finished r5 \<and> self_ib s5 = c5 \<and>
     futures s5 fid = Finished r4 \<and>
     is_status tid Looping s5 \<and> self_running s5"
proof -
  have s1: "s1 = snd (execute_put f s)" and fid: "fid = next_future s"
    using assms(4) execute_put_fields(1) [of f s] by simp_all
  have pend1: "futures s1 fid = Pending" by (simp add: s1 fid)
  have aw: "r = Inl TimeoutError" "s1' = s1"
    using assms(5) pend1 by (simp_all add: execute_await_def future_result_def)
  have ok1: "queue_ok s1" unfolding s1 using assms(3) by (rule queue_ok_execute_put)
  have s2: "s2 = snd (execute_put g s1)" and fid': "fid' = Suc fid"
    using assms(6) aw(2) execute_put_fields(1) [of g s1] by (simp_all add: s1 fid)
  have ok2: "queue_ok s2" unfolding s2 using ok1 by (rule queue_ok_execute_put)
  have q2: "self_task_queue s2 = self_task_queue s @ [(f, fid), (g, fid')]"
    and l2: "is_status tid Looping s2" and r2: "self_running s2"
    and ser: "serial (self_task_queue s) (self_ib s2) = Some (rs, c3)"
    using assms(1,2,7) by (simp_all add: s2 s1 fid fid')
  have s3: "s3 = snd (worker_run env tid (length (self_task_queue s)) s2)"
    and ls: "ls = fst (worker_run env tid (length (self_task_queue s)) s2)"
    using assms(8) by simp_all
  note d = drain [OF l2 r2 ok2 q2 ser, of env, folded s3 ls]
  have q3: "self_task_queue s3 = (f, fid) # [(g, fid')]" using d by simp
  have pend3: "futures s3 fid = Pending" using d q3 by (auto intro: queue_ok_head)
  have l3: "is_status tid Looping s3" and r3: "self_running s3" using d by simp_all
  have s4: "s4 = s3\<lparr>self_task_queue := [(g, fid')], self_ib := c4,
              futures := (futures s3)(fid := Finished r4)\<rparr>"
    and l4: "l4 = Executed fid"
    using worker_iter_item [OF l3 r3 q3 pend3 assms(9,10), of env] assms(11) by simp_all
  have ok4: "queue_ok s4"
    unfolding s4 using d q3 by (auto intro: queue_ok_after_item)
  have q4: "self_task_queue s4 = (g, fid') # []" and l4': "is_status tid Looping s4"
    and r4: "self_running s4"
    using d by (simp_all add: s4)
  have pend4: "futures s4 fid' = Pending" using ok4 q4 by (rule queue_ok_head)
  have s5: "s5 = s4\<lparr>self_task_queue := [], self_ib := c5,
              futures := (futures s4)(fid' := Finished r5)\<rparr>"
    and l5: "l5 = Executed fid'"
    using worker_iter_item [OF l4' r4 q4 pend4 assms(12,13), of env] assms(14) by simp_all
  have f4: "futures s4 fid = Finished r4" "self_ib s4 = c4" by (simp_all add: s4)
  show ?thesis
    using aw d l4 f4 l5 l4' r4 by (simp add: s5 fid')
qed

theorem await_timeout_leaves_worker_witness:
  "is_status 0 Looping started \<and> self_running started \<and> queue_ok started \<and>
   fst (execute_await 0 0 None (snd (execute_put op_count started))) = Inl TimeoutError \<and>
   futures (snd (worker_run env_ok 0 2
     (snd (execute_put op_count (snd (execute_put op_count started)))))) 0 = Finished (Inr 0) \<and>
   futures (snd (worker_run env_ok 0 2
     (snd (execute_put op_count (snd (execute_put op_count started)))))) 1 = Finished (Inr 1)"
proof -
  define s1 where "s1 = snd (execute_put op_count started)"
  define s2 where "s2 = snd (execute_put op_count s1)"
  define s4 where "s4 = snd (worker_iter env_ok 0 s2)"
  define s5 where "s5 = snd (worker_iter env_ok 0 s4)"
  have h: "is_status 0 Looping started" "self_running started" "queue_ok started"
    by (simp_all add: bench_defs)
  have h4: "execute_put op_count started = (0, s1)"
    by (simp add: s1_def prod_eq_iff) (simp add: bench_defs)
  have h5: "execute_await 0 0 None s1 = (fst (execute_await 0 0 None s1), s1)"
    by (simp add: execute_await_def)
  have h6: "execute_put op_count s1 = (1, s2)"
    by (simp add: s2_def s1_def prod_eq_iff) (simp add: bench_defs)
  have h7: "serial (self_task_queue started) (self_ib started) = Some ([], 0)"
    by (simp add: bench_defs)
  have h8: "worker_run env_ok 0 (length (self_task_queue started)) s2 = ([], s2)"
    by (simp add: bench_defs)
  have ib2: "self_ib s2 = 0" by (simp add: s2_def s1_def bench_defs)
  have h9: "op_count (self_ib s2) = Some (Inr 0, 1)" by (simp add: ib2 op_count_def)
  have hd: "handled (Inr 0 :: exn + int)" "handled (Inr 1 :: exn + int)"
    by (simp_all add: handled_def)
  have h11: "worker_iter env_ok 0 s2 = (fst (worker_iter env_ok 0 s2), s4)" by (simp add: s4_def)
  have q2: "self_task_queue s2 = (op_count, 0) # [(op_count, 1)]"
    and l2: "is_status 0 Looping s2" and r2: "self_running s2" and p2: "futures s2 0 = Pending"
    by (simp_all add: s2_def s1_def bench_defs)
  have ib4: "self_ib s4 = 1"
    using worker_iter_item [OF l2 r2 q2 p2 h9 hd(1), of env_ok] by (simp add: s4_def)
  have h12: "op_count (self_ib s4) = Some (Inr 1, 2)" by (simp add: ib4 op_count_def)
  have h14: "worker_iter env_ok 0 s4 = (fst (worker_iter env_ok 0 s4), s5)" by (simp add: s5_def)
  note th = await_timeout_leaves_worker [OF h h4 h5 h6 h7 h8 h9 hd(1) h11 h12 hd(2) h14]
  have run: "snd (worker_run env_ok 0 2 s2) = s5"
    by (simp add: numeral_2_eq_2 s5_def s4_def split_beta)
  show ?thesis
    using h th run unfolding s1_def [symmetric] s2_def [symmetric] by simp
qed

section \<open>The deadline of execute\<close>

text \<open>
  Claim C10, as the code has it. \<^verbatim>\<open>execute\<close> takes no deadline: its wait is
  \<^verbatim>\<open>future.result(30)\<close>, run on the default executor. The 30 seconds count from the
  moment an executor thread starts that call, \<open>executor_delay\<close> after the call of
  \<^verbatim>\<open>execute\<close>: when the future is not finished within 30 seconds of that moment the
  wait raises the timeout error, and a future finished just then is still read. The wait
  leaves the service as it is: the item that \<^verbatim>\<open>execute\<close> queued is still queued and
  its future still pending, neither cancelled nor removed, and the worker still runs it.
\<close>

theorem execute_fixed_deadline:
  assumes "execute_put func s = (fid, s1)"
    and "futures sw fid = Pending \<or> done_after = None \<or>
         (\<exists>t. done_after = Some t \<and> executor_delay + 30 < t)"
  shows "execute_await fid executor_delay done_after sw = (Inl TimeoutError, sw) \<and>
     execute_await fid executor_delay done_after s1 = (Inl TimeoutError, s1) \<and>
     (func, fid) \<in> set (self_task_queue s1) \<and> futures s1 fid = Pending \<and>
     (\<forall>r. futures sw fid = Finished r \<longrightarrow>
        execute_await fid executor_delay (Some (executor_delay + 30)) sw = (r, sw)) \<and>
     (\<forall>r c. is_status tid Looping s \<and> self_running s \<and> self_task_queue s = [] \<and>
        func (self_ib s) = Some (r, c) \<and> handled r \<longrightarrow>
        fst (worker_iter env tid (snd (execute_await fid executor_delay done_after s1))) = Executed fid \<and>
        futures (snd (worker_iter env tid (snd (execute_await fid executor_delay done_after s1)))) fid
          = Finished r)"
proof -
  have s1: "s1 = snd (execute_put func s)" and fid: "fid = next_future s"
    using assms(1) execute_put_fields(1) [of func s] by simp_all
  have late: "execute_await fid executor_delay done_after sw = (Inl TimeoutError, sw)"
    using assms(2)
    by (auto simp: execute_await_def future_result_def split: future.splits option.splits)
  have p1: "futures s1 fid = Pending" by (simp add: s1 fid)
  have aw1: "execute_await fid executor_delay done_after s1 = (Inl TimeoutError, s1)"
    using p1 by (simp add: execute_await_def future_result_def)
  have run: "fst (worker_iter env tid (snd (execute_await fid executor_delay done_after s1))) = Executed fid \<and>
        futures (snd (worker_iter env tid (snd (execute_await fid executor_delay done_after s1)))) fid
          = Finished r"
    if "is_status tid Looping s" and "self_running s" and "self_task_queue s = []"
      and "func (self_ib s) = Some (r, c)" and "handled r" for r c
  proof -
    have a: "is_status tid Looping s1" "self_running s1" "self_task_queue s1 = (func, fid) # []"
      and b: "func (self_ib s1) = Some (r, c)"
      using that by (simp_all add: s1 fid)
    have "worker_iter env tid s1 =
        (Executed fid, s1\<lparr>self_task_queue := [], self_ib := c,
                futures := (futures s1)(fid := Finished r)\<rparr>)"
      using a p1 b that(5) by (rule worker_iter_item)
    then show ?thesis by (simp add: aw1)
  qed
  show ?thesis
    using late aw1 p1 run
    by (auto simp: s1 fid execute_await_def future_result_def)
qed

theorem execute_fixed_deadline_witness:
  "fst (execute_await 0 0 (Some 45) (snd (execute_put op_count started))) = Inl TimeoutError \<and>
   self_task_queue (snd (execute_await 0 0 (Some 45) (snd (execute_put op_count started))))
     = [(op_count, 0)] \<and>
   futures (snd (execute_await 0 0 (Some 45) (snd (execute_put op_count started)))) 0 = Pending \<and>
   fst (execute_await 0 0 (Some 45)
     (snd (worker_iter env_ok 0 (snd (execute_put op_count started))))) = Inl TimeoutError \<and>
   fst (execute_await 0 0 (Some 30)
     (snd (worker_iter env_ok 0 (snd (execute_put op_count started))))) = Inr 0 \<and>
   futures (snd (worker_iter env_ok 0
     (snd (execute_await 0 0 (Some 45) (snd (execute_put op_count started)))))) 0 = Finished (Inr 0)"
proof -
  define s1 where "s1 = snd (execute_put op_count started)"
  define sw where "sw = snd (worker_iter env_ok 0 s1)"
  have h1: "execute_put op_count started = (0, s1)"
    by (simp add: s1_def prod_eq_iff) (simp add: bench_defs)
  have h2: "futures sw 0 = Pending \<or> Some (45 :: real) = None \<or>
      (\<exists>t. Some (45 :: real) = Some t \<and> 0 + 30 < t)"
    by simp
  note th = execute_fixed_deadline [OF h1 h2, where env = env_ok and tid = 0]
  have q: "self_task_queue s1 = [(op_count, 0)]"
    by (simp add: s1_def bench_defs)
  have fin: "futures sw 0 = Finished (Inr 0)"
    by (simp add: sw_def s1_def bench_defs step_defs)
  have live: "is_status 0 Looping started \<and> self_running started \<and> self_task_queue started = [] \<and>
      op_count (self_ib started) = Some (Inr 0, 1) \<and> handled (Inr 0 :: exn + int)"
    by (simp add: bench_defs handled_def)
  show ?thesis using th q fin live unfolding s1_def [symmetric] sw_def [symmetric] by simp
qed

text \<open>
  Claim C10 as stated fails: the 30 seconds do not count from the call of
  \<^verbatim>\<open>execute\<close>. With the executor busy for 15 seconds, a future finished 40 seconds
  after the call is read and its result returned, not a timeout error.
\<close>

theorem execute_deadline_counterexample:
  "(30 :: real) < 40 \<and>
   futures (snd (worker_iter env_ok 0 (snd (execute_put op_count started)))) 0 = Finished (Inr 0) \<and>
   fst (execute_await 0 15 (Some 40)
     (snd (worker_iter env_ok 0 (snd (execute_put op_count started))))) = Inr 0"
  by (simp add: execute_await_def future_result_def bench_defs step_defs)

end
